theory Spec2Isabelle
  imports Complex_Main "HOL-Library.Char_ord" "HOL-Library.List_Lexorder"
begin

section \<open>The expense-sharing ledger of DAY29/LLDD85.CPP\<close>

text \<open>
  The embedding follows the class \<open>Group\<close> of the source and what it uses.

  \<^item> \<open>double\<close> is modelled by \<^typ>\<open>real\<close>: sums, differences and quotients are exact,
    rounding, infinities and NaN are not represented.
  \<^item> \<open>std::map<string, V>\<close> is an association list kept in ascending key order, which is
    the order a range-for over the map visits. \<open>find\<close> is \<^const>\<open>map_of\<close>; \<open>operator[]\<close>
    reads the stored value, or the value-initialised one (\<open>0.0\<close>, the empty map) for a key
    that is absent, and stores what is assigned in the key's place.
  \<^item> a method that mutates \<open>*this\<close> and prints returns the line printed and the new object.
  \<^item> \<open>values[i]\<close> beyond the end of the vector is undefined behaviour in C++; the model
    returns the fault \<open>OutOfRange\<close> there.
\<close>

subsection \<open>Containers\<close>

type_synonym double = real

type_synonym ('k, 'v) std_map = "('k \<times> 'v) list"

text \<open>Storing \<open>v\<close> under \<open>k\<close>: the entry is replaced, or inserted at its place in key order.\<close>

fun map_put :: "'k::linorder \<Rightarrow> 'v \<Rightarrow> ('k, 'v) std_map \<Rightarrow> ('k, 'v) std_map" where
  "map_put k v [] = [(k, v)]"
| "map_put k v ((k', v') # m) =
     (if k < k' then (k, v) # (k', v') # m
      else if k = k' then (k, v) # m
      else (k', v') # map_put k v m)"

fun map_erase :: "'k \<Rightarrow> ('k, 'v) std_map \<Rightarrow> ('k, 'v) std_map" where
  "map_erase k [] = []"
| "map_erase k ((k', v') # m) = (if k = k' then m else (k', v') # map_erase k m)"

text \<open>What \<open>m[k]\<close> denotes when it is read: the stored value, else the value-initialised one.\<close>

definition map_at :: "'v \<Rightarrow> ('k, 'v) std_map \<Rightarrow> 'k \<Rightarrow> 'v" where
  "map_at dflt m k = (case map_of m k of None \<Rightarrow> dflt | Some v \<Rightarrow> v)"

datatype fault = OutOfRange

definition vec_at :: "'a list \<Rightarrow> nat \<Rightarrow> fault + 'a" where
  "vec_at xs i = (if i < length xs then Inr (xs ! i) else Inl OutOfRange)"

subsection \<open>Data\<close>

datatype SplitType = EQUAL | EXACT | PERCENTAGE

record Split =
  userId :: string
  amount :: double

record User =
  userId :: string
  name :: string
  balances :: "(string, double) std_map"

record Group =
  groupId :: string
  name :: string
  members :: "User list"
  balances :: "(string, (string, double) std_map) std_map"

text \<open>The lines the methods print. Amounts are kept as numbers, not as formatted text.\<close>

datatype message =
    AddedToGroup string string
  | InvalidUsersInExpense
  | ExpenseAdded string double string
  | InvalidUsers
  | Paid string string double

datatype balance_line =
    GroupBalancesFor string
  | MemberLine string
  | NoBalances
  | OwesRs string double
  | OwesTo string double

subsection \<open>Identifiers and constructors\<close>

definition digit_char :: "nat \<Rightarrow> char" where
  "digit_char d = ''0123456789'' ! d"

fun to_string :: "nat \<Rightarrow> string" where
  "to_string n = (if n < 10 then [digit_char n] else to_string (n div 10) @ [digit_char (n mod 10)])"

declare to_string.simps [simp del]

text \<open>
  The constructors pre-increment a static counter; the counter is passed in and the
  incremented one is returned with the object.
\<close>

definition User_new :: "nat \<Rightarrow> string \<Rightarrow> nat \<times> User" where
  "User_new nextUserId nm =
     (Suc nextUserId,
      \<lparr>User.userId = ''user'' @ to_string (Suc nextUserId), name = nm, balances = []\<rparr>)"

definition Group_new :: "nat \<Rightarrow> string \<Rightarrow> nat \<times> Group" where
  "Group_new nextGroupId nm =
     (Suc nextGroupId,
      \<lparr>groupId = ''group'' @ to_string (Suc nextGroupId), name = nm, members = [], balances = []\<rparr>)"

definition updateBalance :: "User \<Rightarrow> string \<Rightarrow> double \<Rightarrow> User" where
  "updateBalance u otherUserId amt =
     (let b = map_put otherUserId (map_at 0 (User.balances u) otherUserId + amt) (User.balances u)
      in u\<lparr>User.balances :=
             (if \<bar>map_at 0 b otherUserId\<bar> < 0.01 then map_erase otherUserId b else b)\<rparr>)"

subsection \<open>Group\<close>

text \<open>
  \<open>addMember\<close> (lines 42 to 46): \<open>members.push_back(user)\<close>, then
  \<open>balances[user->userId] = {}\<close>, whether or not the key is there already.
\<close>

definition addMember :: "Group \<Rightarrow> User \<Rightarrow> message \<times> Group" where
  "addMember g user =
     (AddedToGroup (User.name user) (Group.name g),
      g\<lparr>members := members g @ [user],
        balances := map_put (User.userId user) [] (Group.balances g)\<rparr>)"

definition isMember :: "Group \<Rightarrow> string \<Rightarrow> bool" where
  "isMember g uid = (map_of (Group.balances g) uid \<noteq> None)"

fun getUserNameIn :: "User list \<Rightarrow> string \<Rightarrow> string" where
  "getUserNameIn [] uid = ''''"
| "getUserNameIn (user # rest) uid =
     (if User.userId user = uid then User.name user else getUserNameIn rest uid)"

definition getUserName :: "Group \<Rightarrow> string \<Rightarrow> string" where
  "getUserName g uid = getUserNameIn (members g) uid"

fun allMembersExist :: "Group \<Rightarrow> string list \<Rightarrow> bool" where
  "allMembersExist g [] = True"
| "allMembersExist g (uid # rest) = (if \<not> isMember g uid then False else allMembersExist g rest)"

text \<open>
  \<open>addExpense\<close> (lines 52 to 82) in its three parts: the membership check, the block that
  fills \<open>splits\<close> (\<open>makeSplits\<close>, lines 60 to 71) and the loop that applies them
  (\<open>applySplits\<close>, lines 73 to 78).

  The two indexed loops (lines 66 to 67 and 69 to 70) differ only in the share computed
  from \<open>values[i]\<close>, here \<open>share\<close>; \<open>indexedSplits\<close> is that loop from index \<open>i\<close> on, with
  the splits made so far. \<open>users[i]\<close> is read below \<open>users.size()\<close> only. For \<open>EQUAL\<close> with
  no users the quotient \<open>amount / 0\<close> is computed and never used, as no split is made
  from it.
\<close>

function indexedSplits ::
  "(double \<Rightarrow> double) \<Rightarrow> string list \<Rightarrow> double list \<Rightarrow> nat \<Rightarrow> Split list \<Rightarrow> fault + Split list" where
  "indexedSplits share users vals i splits =
     (if i < length users then
        (case vec_at vals i of
           Inl e \<Rightarrow> Inl e
         | Inr v \<Rightarrow>
             indexedSplits share users vals (i + 1)
               (splits @ [\<lparr>Split.userId = users ! i, amount = share v\<rparr>]))
      else Inr splits)"
  by pat_completeness auto
termination
  by (relation "measure (\<lambda>(share, users, vals, i, splits). length users - i)") auto

declare indexedSplits.simps [simp del]

definition makeSplits :: "SplitType \<Rightarrow> double \<Rightarrow> string list \<Rightarrow> double list \<Rightarrow> fault + Split list" where
  "makeSplits type amt users vals =
     (case type of
        EQUAL \<Rightarrow>
          (let splitAmount = amt / real (length users)
           in Inr (map (\<lambda>uid. \<lparr>Split.userId = uid, amount = splitAmount\<rparr>) users))
      | EXACT \<Rightarrow> indexedSplits (\<lambda>v. v) users vals 0 []
      | PERCENTAGE \<Rightarrow> indexedSplits (\<lambda>v. amt * v / 100) users vals 0 [])"

text \<open>
  \<open>balances[a][b] += x\<close> and \<open>balances[a][b] -= x\<close>, with both \<open>operator[]\<close> creating
  what is absent.
\<close>

definition addTo ::
  "(string, (string, double) std_map) std_map \<Rightarrow> string \<Rightarrow> string \<Rightarrow> double \<Rightarrow>
   (string, (string, double) std_map) std_map" where
  "addTo bals a b x =
     (let row = map_at [] bals a
      in map_put a (map_put b (map_at 0 row b + x) row) bals)"

definition subFrom ::
  "(string, (string, double) std_map) std_map \<Rightarrow> string \<Rightarrow> string \<Rightarrow> double \<Rightarrow>
   (string, (string, double) std_map) std_map" where
  "subFrom bals a b x =
     (let row = map_at [] bals a
      in map_put a (map_put b (map_at 0 row b - x) row) bals)"

fun applySplits ::
  "string \<Rightarrow> Split list \<Rightarrow> (string, (string, double) std_map) std_map \<Rightarrow>
   (string, (string, double) std_map) std_map" where
  "applySplits paidBy [] bals = bals"
| "applySplits paidBy (split # rest) bals =
     applySplits paidBy rest
       (if Split.userId split \<noteq> paidBy then
          subFrom (addTo bals paidBy (Split.userId split) (amount split))
            (Split.userId split) paidBy (amount split)
        else bals)"

definition addExpense ::
  "Group \<Rightarrow> string \<Rightarrow> double \<Rightarrow> string \<Rightarrow> string list \<Rightarrow> SplitType \<Rightarrow> double list \<Rightarrow>
   fault + message \<times> Group" where
  "addExpense g desc amt paidBy users type vals =
     (if \<not> isMember g paidBy \<or> \<not> allMembersExist g users then Inr (InvalidUsersInExpense, g)
      else
        (case makeSplits type amt users vals of
           Inl e \<Rightarrow> Inl e
         | Inr splits \<Rightarrow>
             Inr (ExpenseAdded desc amt (getUserName g paidBy),
                  g\<lparr>balances := applySplits paidBy splits (Group.balances g)\<rparr>)))"

definition settlePayment :: "Group \<Rightarrow> string \<Rightarrow> string \<Rightarrow> double \<Rightarrow> message \<times> Group" where
  "settlePayment g fromUserId toUserId amt =
     (if \<not> isMember g fromUserId \<or> \<not> isMember g toUserId then (InvalidUsers, g)
      else
        (Paid (getUserName g fromUserId) (getUserName g toUserId) amt,
         g\<lparr>balances :=
             subFrom (addTo (Group.balances g) fromUserId toUserId amt) toUserId fromUserId amt\<rparr>))"

text \<open>
  \<open>showBalances\<close> (lines 95 to 109): \<open>showRows\<close> is the loop over the matrix, \<open>showRow\<close>
  the loop over one row. \<open>abs\<close> is the absolute value of a \<open>double\<close>.
\<close>

fun showRow :: "Group \<Rightarrow> (string, double) std_map \<Rightarrow> balance_line list" where
  "showRow g [] = []"
| "showRow g ((otherId, balance) # rest) =
     (if balance > 0 then OwesRs (getUserName g otherId) balance # showRow g rest
      else if balance < 0 then OwesTo (getUserName g otherId) \<bar>balance\<bar> # showRow g rest
      else showRow g rest)"

fun showRows :: "Group \<Rightarrow> (string, (string, double) std_map) std_map \<Rightarrow> balance_line list" where
  "showRows g [] = []"
| "showRows g ((uid, userBalances) # rest) =
     MemberLine (getUserName g uid)
       # (if userBalances = [] then [NoBalances] else [])
       @ showRow g userBalances
       @ showRows g rest"

definition showBalances :: "Group \<Rightarrow> balance_line list" where
  "showBalances g = GroupBalancesFor (Group.name g) # showRows g (Group.balances g)"

subsection \<open>Reading the matrix\<close>

text \<open>
  \<open>entry g a b\<close> is the stored entry of row \<open>a\<close> under \<open>b\<close>, if there is one;
  \<open>bal g a b\<close> is the value of the expression \<open>balances[a][b]\<close>, zero where nothing is stored.
\<close>

definition entry :: "Group \<Rightarrow> string \<Rightarrow> string \<Rightarrow> double option" where
  "entry g a b = (case map_of (Group.balances g) a of None \<Rightarrow> None | Some row \<Rightarrow> map_of row b)"

definition bal :: "Group \<Rightarrow> string \<Rightarrow> string \<Rightarrow> double" where
  "bal g a b = map_at 0 (map_at [] (Group.balances g) a) b"

subsection \<open>Sequences of operations\<close>

text \<open>
  The groups that a new group can become by \<open>addMember\<close>, \<open>addExpense\<close> and
  \<open>settlePayment\<close> when \<open>addMember\<close> is only called for a user who is not a member yet.
\<close>

inductive addedOnce :: "Group \<Rightarrow> bool" where
  created: "addedOnce (snd (Group_new nextGroupId nm))"
| member: "addedOnce g \<Longrightarrow> \<not> isMember g (User.userId user) \<Longrightarrow> addedOnce (snd (addMember g user))"
| expense:
    "addedOnce g \<Longrightarrow> addExpense g desc amt paidBy users type vals = Inr (msg, g') \<Longrightarrow> addedOnce g'"
| payment: "addedOnce g \<Longrightarrow> addedOnce (snd (settlePayment g fromUserId toUserId amt))"

subsection \<open>The objects of \<open>main\<close>\<close>

text \<open>
  \<open>main\<close> creates four users and a group and adds the four to it; \<open>hostel\<close> is the
  group at that point. \<open>afterLunch\<close> is the group that the first expense of \<open>main\<close> leaves.
\<close>

definition user1 :: User where "user1 = snd (User_new 0 ''Aditya'')"
definition user2 :: User where "user2 = snd (User_new 1 ''Rohit'')"
definition user3 :: User where "user3 = snd (User_new 2 ''Manish'')"
definition user4 :: User where "user4 = snd (User_new 3 ''Saurav'')"


definition hostel :: Group where
  "hostel =
     snd (addMember (snd (addMember (snd (addMember (snd (addMember
       (snd (Group_new 0 ''Hostel Expenses'')) user1)) user2)) user3)) user4)"

definition afterLunch :: Group where
  "afterLunch =
     hostel\<lparr>balances :=
       [(''user1'', [(''user2'', 200), (''user3'', 200), (''user4'', 200)]),
        (''user2'', [(''user1'', - 200)]),
        (''user3'', [(''user1'', - 200)]),
        (''user4'', [(''user1'', - 200)])]\<rparr>"

section \<open>Properties\<close>

subsection \<open>Maps and the matrix\<close>

lemma map_of_map_put: "map_of (map_put k v m) = (map_of m)(k \<mapsto> v)"
  by (induction m) (auto simp: fun_upd_twist)

lemma map_at_map_put: "map_at d (map_put k v m) k' = (if k' = k then v else map_at d m k')"
  by (simp add: map_at_def map_of_map_put)

lemma bal_entry: "bal g a b = (case entry g a b of None \<Rightarrow> 0 | Some v \<Rightarrow> v)"
  by (simp add: bal_def entry_def map_at_def split: option.splits)

lemma entry_addTo:
  "entry (g\<lparr>balances := addTo B a b x\<rparr>) a' b' =
     (if a' = a \<and> b' = b then Some (bal (g\<lparr>balances := B\<rparr>) a b + x)
      else entry (g\<lparr>balances := B\<rparr>) a' b')"
  by (auto simp: entry_def bal_def addTo_def Let_def map_of_map_put map_at_def split: option.splits)

lemma entry_subFrom:
  "entry (g\<lparr>balances := subFrom B a b x\<rparr>) a' b' =
     (if a' = a \<and> b' = b then Some (bal (g\<lparr>balances := B\<rparr>) a b - x)
      else entry (g\<lparr>balances := B\<rparr>) a' b')"
  by (auto simp: entry_def bal_def subFrom_def Let_def map_of_map_put map_at_def split: option.splits)

lemma bal_addTo:
  "bal (g\<lparr>balances := addTo B a b x\<rparr>) a' b' =
     (if a' = a \<and> b' = b then bal (g\<lparr>balances := B\<rparr>) a b + x
      else bal (g\<lparr>balances := B\<rparr>) a' b')"
  by (simp add: bal_entry entry_addTo)

lemma bal_subFrom:
  "bal (g\<lparr>balances := subFrom B a b x\<rparr>) a' b' =
     (if a' = a \<and> b' = b then bal (g\<lparr>balances := B\<rparr>) a b - x
      else bal (g\<lparr>balances := B\<rparr>) a' b')"
  by (simp add: bal_entry entry_subFrom)



lemma bal_new_member:
  "\<not> isMember g (User.userId user) \<Longrightarrow> bal (snd (addMember g user)) a b = bal g a b"
  by (simp add: addMember_def isMember_def bal_def map_at_def map_of_map_put)

lemma bal_applySplits:
  "bal (g\<lparr>balances := applySplits p splits B\<rparr>) a b =
     (if a = p \<and> b \<noteq> p then
        bal (g\<lparr>balances := B\<rparr>) a b
          + sum_list (map amount (filter (\<lambda>s. Split.userId s = b) splits))
      else if b = p \<and> a \<noteq> p then
        bal (g\<lparr>balances := B\<rparr>) a b
          - sum_list (map amount (filter (\<lambda>s. Split.userId s = a) splits))
      else bal (g\<lparr>balances := B\<rparr>) a b)"
proof (induction splits arbitrary: B)
  case Nil
  then show ?case by simp
next
  case (Cons s splits)
  show ?case
  proof (cases "Split.userId s = p")
    case True
    then show ?thesis using Cons.IH [of B] by auto
  next
    case False
    then show ?thesis
      using Cons.IH [of "subFrom (addTo B p (Split.userId s) (amount s)) (Split.userId s) p (amount s)"]
      by (auto simp: bal_subFrom bal_addTo)
  qed
qed

lemma allMembersExist_iff: "allMembersExist g users \<longleftrightarrow> (\<forall>uid \<in> set users. isMember g uid)"
  by (induction users) auto

subsection \<open>The objects of \<open>main\<close>, evaluated\<close>

lemma user_ids:
  "user1 = \<lparr>User.userId = ''user1'', name = ''Aditya'', balances = []\<rparr>"
  "user2 = \<lparr>User.userId = ''user2'', name = ''Rohit'', balances = []\<rparr>"
  "user3 = \<lparr>User.userId = ''user3'', name = ''Manish'', balances = []\<rparr>"
  "user4 = \<lparr>User.userId = ''user4'', name = ''Saurav'', balances = []\<rparr>"
  by (simp_all add: user1_def user2_def user3_def user4_def User_new_def to_string.simps digit_char_def)


lemma hostel_eq:
  "hostel = \<lparr>groupId = ''group1'', name = ''Hostel Expenses'',
     members = [user1, user2, user3, user4],
     balances = [(''user1'', []), (''user2'', []), (''user3'', []), (''user4'', [])]\<rparr>"
  by (simp add: hostel_def addMember_def Group_new_def user_ids to_string.simps digit_char_def)

lemma hostel_members:
  "isMember hostel ''user1''" "isMember hostel ''user2''"
  "isMember hostel ''user3''" "isMember hostel ''user4''"
  by (simp_all add: hostel_eq isMember_def)

lemma lunch_eq:
  "addExpense hostel ''Lunch'' 800 ''user1'' [''user1'', ''user2'', ''user3'', ''user4''] EQUAL []
     = Inr (ExpenseAdded ''Lunch'' 800 ''Aditya'', afterLunch)"
  by (simp add: addExpense_def makeSplits_def hostel_eq isMember_def afterLunch_def
      getUserName_def user_ids addTo_def subFrom_def map_at_def)

subsection \<open>The indexed loops over \<open>values\<close>\<close>

lemma indexedSplits_in_range:
  "i \<le> length users \<Longrightarrow> length users \<le> length vals \<Longrightarrow>
   indexedSplits share users vals i splits =
     Inr (splits @ map (\<lambda>(uid, v). \<lparr>Split.userId = uid, amount = share v\<rparr>)
                     (zip (drop i users) (drop i vals)))"
proof (induction share users vals i splits rule: indexedSplits.induct)
  case (1 share users vals i splits)
  show ?case
  proof (cases "i < length users")
    case True
    with "1.prems" have iv: "i < length vals" by simp
    have du: "drop i users = users ! i # drop (Suc i) users"
      using True by (simp add: Cons_nth_drop_Suc)
    have dv: "drop i vals = vals ! i # drop (Suc i) vals"
      using iv by (simp add: Cons_nth_drop_Suc)
    have "indexedSplits share users vals i splits =
            indexedSplits share users vals (i + 1)
              (splits @ [\<lparr>Split.userId = users ! i, amount = share (vals ! i)\<rparr>])"
      using True iv by (subst indexedSplits.simps) (simp add: vec_at_def)
    also have "\<dots> = Inr ((splits @ [\<lparr>Split.userId = users ! i, amount = share (vals ! i)\<rparr>]) @
                 map (\<lambda>(uid, v). \<lparr>Split.userId = uid, amount = share v\<rparr>)
                   (zip (drop (i + 1) users) (drop (i + 1) vals)))"
      using True iv "1.prems" by (intro "1.IH"[of "vals ! i"]) (simp_all add: vec_at_def)
    finally show ?thesis by (simp add: du dv)
  next
    case False
    with "1.prems" show ?thesis by (subst indexedSplits.simps) simp
  qed
qed

lemma indexedSplits_out_of_range:
  "i \<le> length vals \<Longrightarrow> length vals < length users \<Longrightarrow>
   indexedSplits share users vals i splits = Inl OutOfRange"
proof (induction share users vals i splits rule: indexedSplits.induct)
  case (1 share users vals i splits)
  from "1.prems" have iu: "i < length users" by simp
  show ?case
  proof (cases "i < length vals")
    case True
    have "indexedSplits share users vals i splits =
            indexedSplits share users vals (i + 1)
              (splits @ [\<lparr>Split.userId = users ! i, amount = share (vals ! i)\<rparr>])"
      using True iu by (subst indexedSplits.simps) (simp add: vec_at_def)
    also have "\<dots> = Inl OutOfRange"
      using True iu "1.prems" by (intro "1.IH"[of "vals ! i"]) (simp_all add: vec_at_def)
    finally show ?thesis .
  next
    case False
    then show ?thesis using iu by (subst indexedSplits.simps) (simp add: vec_at_def)
  qed
qed

lemma indexedSplits_fault_iff:
  "(indexedSplits share users vals 0 [] = Inl OutOfRange) \<longleftrightarrow> length vals < length users"
proof (cases "length vals < length users")
  case True
  then show ?thesis by (simp add: indexedSplits_out_of_range)
next
  case False
  then show ?thesis by (simp add: indexedSplits_in_range)
qed

lemma makeSplits_fault_iff:
  "(makeSplits type amt users vals = Inl OutOfRange) \<longleftrightarrow> type \<noteq> EQUAL \<and> length vals < length users"
  by (cases type) (simp_all add: makeSplits_def indexedSplits_fault_iff)

subsection \<open>Rejection of users who are not members\<close>

text \<open>
  C4. When the payer or one of the listed users is not a member of the group,
  \<open>addExpense\<close> prints "Invalid users in expense!" and returns with the group, and so the
  debt matrix, exactly as it was.
\<close>

theorem addExpense_rejects_non_members:
  assumes "\<not> isMember g paidBy \<or> (\<exists>uid \<in> set users. \<not> isMember g uid)"
  shows "addExpense g desc amt paidBy users type vals = Inr (InvalidUsersInExpense, g)"
  using assms by (auto simp: addExpense_def allMembersExist_iff)

theorem addExpense_rejects_non_members_witness:
  "\<not> isMember hostel ''uX'' \<and>
   addExpense hostel ''Ghost'' 100 ''uX'' [''user1''] EQUAL [] = Inr (InvalidUsersInExpense, hostel)"
proof -
  have h: "\<not> isMember hostel ''uX''"
    by (simp add: hostel_eq isMember_def)
  from h addExpense_rejects_non_members [of hostel "''uX''" "[''user1'']" "''Ghost''" 100 EQUAL "[]"]
  show ?thesis by simp
qed

subsection \<open>Reads of \<open>values\<close>\<close>

text \<open>
  C10. For \<open>EXACT\<close> and \<open>PERCENTAGE\<close> the loops read \<open>values[i]\<close> for every \<open>i\<close> below
  \<open>users.size()\<close> and nothing compares the two lengths. Once the membership check has
  passed, a read leaves the vector exactly when \<open>values\<close> is shorter than \<open>users\<close>; with
  at least as many values as users every read is in range. \<open>EQUAL\<close> reads no value.
\<close>

theorem addExpense_out_of_range_iff:
  "(addExpense g desc amt paidBy users type vals = Inl OutOfRange) \<longleftrightarrow>
     isMember g paidBy \<and> allMembersExist g users \<and> type \<noteq> EQUAL \<and> length vals < length users"
  using makeSplits_fault_iff [of type amt users vals]
  by (cases "makeSplits type amt users vals") (auto simp: addExpense_def)

theorem addExpense_out_of_range_iff_witness:
  "addExpense hostel ''Dinner'' 700 ''user3'' [''user1'', ''user3'', ''user4''] EXACT [200, 300]
     = Inl OutOfRange \<and>
   isMember hostel ''user3'' \<and> allMembersExist hostel [''user1'', ''user3'', ''user4''] \<and>
   EXACT \<noteq> EQUAL \<and> length [200, 300 :: double] < length [''user1'', ''user3'', ''user4''] \<and>
   addExpense hostel ''Dinner'' 700 ''user3'' [''user1'', ''user3'', ''user4''] EXACT [200, 300, 200]
     \<noteq> Inl OutOfRange"
  using addExpense_out_of_range_iff
    [of hostel "''Dinner''" 700 "''user3''" "[''user1'', ''user3'', ''user4'']" EXACT "[200, 300]"]
    addExpense_out_of_range_iff
    [of hostel "''Dinner''" 700 "''user3''" "[''user1'', ''user3'', ''user4'']" EXACT
       "[200, 300, 200]"]
  by (simp add: hostel_members)

subsection \<open>\<open>EXACT\<close> shares are not validated\<close>

text \<open>
  Scenario 5 of the specification on the group of \<open>main\<close>: the amounts 40 and 50 do not
  add up to the total 100, and the expense is applied all the same; user2 then owes
  user1 50.
\<close>

theorem EXACT_sum_mismatch_counterexample:
  "length [40, 50 :: double] = length [''user1'', ''user2''] \<and>
   \<bar>sum_list [40, 50] - 100\<bar> > (0.01 :: double) \<and>
   addExpense hostel ''Bad'' 100 ''user1'' [''user1'', ''user2''] EXACT [40, 50] =
     Inr (ExpenseAdded ''Bad'' 100 ''Aditya'',
          hostel\<lparr>balances :=
            [(''user1'', [(''user2'', 50)]), (''user2'', [(''user1'', - 50)]),
             (''user3'', []), (''user4'', [])]\<rparr>) \<and>
   Group.balances hostel =
     [(''user1'', []), (''user2'', []), (''user3'', []), (''user4'', [])]"
  by (simp add: addExpense_def makeSplits_def indexedSplits.simps vec_at_def hostel_eq isMember_def
      getUserName_def user_ids addTo_def subFrom_def map_at_def)

text \<open>
  C2, as the code has it. For a payer and users who are members and at least as many
  values as users, an \<open>EXACT\<close> expense is accepted whatever the total and the sum of the
  values are: the splits applied to the matrix are the users paired with the values in
  order, the i-th value for the i-th user, and values beyond the last user are ignored.
\<close>

theorem addExpense_EXACT_unvalidated:
  assumes "isMember g paidBy" and "allMembersExist g users" and "length users \<le> length vals"
  shows "addExpense g desc amt paidBy users EXACT vals =
           Inr (ExpenseAdded desc amt (getUserName g paidBy),
                g\<lparr>balances :=
                    applySplits paidBy
                      (map (\<lambda>(uid, v). \<lparr>Split.userId = uid, amount = v\<rparr>) (zip users vals))
                      (Group.balances g)\<rparr>)"
  using assms by (simp add: addExpense_def makeSplits_def indexedSplits_in_range)

theorem addExpense_EXACT_unvalidated_witness:
  "isMember hostel ''user3'' \<and> allMembersExist hostel [''user3'', ''user4''] \<and>
   length [''user3'', ''user4''] \<le> length [10, 20, 30 :: double] \<and>
   addExpense hostel ''Tea'' 1000 ''user3'' [''user3'', ''user4''] EXACT [10, 20, 30] =
     Inr (ExpenseAdded ''Tea'' 1000 ''Manish'',
          hostel\<lparr>balances :=
            [(''user1'', []), (''user2'', []), (''user3'', [(''user4'', 20)]),
             (''user4'', [(''user3'', - 20)])]\<rparr>)"
proof -
  have h: "isMember hostel ''user3''" "allMembersExist hostel [''user3'', ''user4'']"
    "length [''user3'', ''user4''] \<le> length [10, 20, 30 :: double]"
    by (simp_all add: hostel_members)
  have "addExpense hostel ''Tea'' 1000 ''user3'' [''user3'', ''user4''] EXACT [10, 20, 30] =
     Inr (ExpenseAdded ''Tea'' 1000 ''Manish'',
          hostel\<lparr>balances :=
            [(''user1'', []), (''user2'', []), (''user3'', [(''user4'', 20)]),
             (''user4'', [(''user3'', - 20)])]\<rparr>)"
    unfolding addExpense_EXACT_unvalidated [OF h, of "''Tea''" 1000]
    by (simp add: hostel_eq getUserName_def user_ids addTo_def subFrom_def map_at_def)
  with h show ?thesis by simp
qed

subsection \<open>An empty list of users\<close>

text \<open>
  An expense with no users, paid by a member, is reported as added and not rejected.
\<close>

theorem empty_users_accepted_counterexample:
  "addExpense hostel ''Nobody'' 100 ''user1'' [] EQUAL [] =
     Inr (ExpenseAdded ''Nobody'' 100 ''Aditya'', hostel) \<and>
   addExpense hostel ''Nobody'' 100 ''user1'' [] EQUAL [] \<noteq> Inr (InvalidUsersInExpense, hostel)"
  by (simp add: addExpense_def makeSplits_def hostel_eq isMember_def getUserName_def user_ids)

text \<open>
  C5, as the code has it. With an empty list of users, whatever the policy and the
  values, \<open>addExpense\<close> leaves the group unchanged and reads no value out of range; it
  rejects the expense only when the payer is not a member and reports it as added
  otherwise.
\<close>

theorem addExpense_empty_users:
  "addExpense g desc amt paidBy [] type vals =
     Inr (if isMember g paidBy then ExpenseAdded desc amt (getUserName g paidBy)
          else InvalidUsersInExpense, g)"
  by (cases type) (simp_all add: addExpense_def makeSplits_def indexedSplits_in_range)

theorem addExpense_empty_users_witness:
  "addExpense hostel ''Nobody'' 100 ''user2'' [] PERCENTAGE [50] =
     Inr (ExpenseAdded ''Nobody'' 100 ''Rohit'', hostel) \<and>
   addExpense hostel ''Nobody'' 100 ''uX'' [] PERCENTAGE [50] = Inr (InvalidUsersInExpense, hostel)"
  using addExpense_empty_users [of hostel "''Nobody''" 100 "''user2''" PERCENTAGE "[50]"]
    addExpense_empty_users [of hostel "''Nobody''" 100 "''uX''" PERCENTAGE "[50]"]
  by (simp add: hostel_eq isMember_def getUserName_def user_ids)

subsection \<open>Settlements\<close>

lemma settlePayment_accepted:
  "isMember g f \<Longrightarrow> isMember g t \<Longrightarrow>
   settlePayment g f t x =
     (Paid (getUserName g f) (getUserName g t) x,
      g\<lparr>balances := subFrom (addTo (Group.balances g) f t x) t f x\<rparr>)"
  by (simp add: settlePayment_def)

text \<open>
  C8. A settlement between two members is accepted, and it performs
  \<open>balances[from][to] += amount\<close> and then \<open>balances[to][from] -= amount\<close>: for distinct
  members the two entries hold the former balances plus and minus the amount, for
  \<open>from = to\<close> the one entry has the amount added and subtracted again. No other entry
  of the matrix changes, and neither do the members, the name or the identifier.
\<close>

theorem settlePayment_sign_convention:
  assumes "isMember g f" and "isMember g t"
  shows "\<exists>g'. settlePayment g f t x = (Paid (getUserName g f) (getUserName g t) x, g') \<and>
           (f \<noteq> t \<longrightarrow> entry g' f t = Some (bal g f t + x) \<and> entry g' t f = Some (bal g t f - x)) \<and>
           (f = t \<longrightarrow> entry g' f f = Some (bal g f f + x - x)) \<and>
           (\<forall>a b. (a, b) \<noteq> (f, t) \<and> (a, b) \<noteq> (t, f) \<longrightarrow> entry g' a b = entry g a b) \<and>
           members g' = members g \<and> Group.name g' = Group.name g \<and> groupId g' = groupId g"
  using assms
  by (auto simp: settlePayment_accepted entry_subFrom entry_addTo bal_addTo)

theorem settlePayment_sign_convention_witness:
  "isMember afterLunch ''user2'' \<and> isMember afterLunch ''user3'' \<and>
   fst (settlePayment afterLunch ''user2'' ''user3'' 200) = Paid ''Rohit'' ''Manish'' 200 \<and>
   entry (snd (settlePayment afterLunch ''user2'' ''user3'' 200)) ''user2'' ''user3'' = Some 200 \<and>
   entry (snd (settlePayment afterLunch ''user2'' ''user3'' 200)) ''user3'' ''user2'' = Some (- 200) \<and>
   entry (snd (settlePayment afterLunch ''user2'' ''user3'' 200)) ''user2'' ''user1'' = Some (- 200) \<and>
   entry (snd (settlePayment afterLunch ''user2'' ''user3'' 200)) ''user1'' ''user2'' = Some 200 \<and>
   entry afterLunch ''user2'' ''user2'' = None \<and>
   entry (snd (settlePayment afterLunch ''user2'' ''user2'' 50)) ''user2'' ''user2'' = Some 0"
proof -
  have m: "isMember afterLunch ''user2''" "isMember afterLunch ''user3''"
    by (simp_all add: afterLunch_def hostel_eq isMember_def)
  have n: "getUserName afterLunch ''user2'' = ''Rohit''" "getUserName afterLunch ''user3'' = ''Manish''"
    by (simp_all add: afterLunch_def hostel_eq getUserName_def user_ids)
  have b: "bal afterLunch ''user2'' ''user3'' = 0" "bal afterLunch ''user3'' ''user2'' = 0"
    "entry afterLunch ''user2'' ''user1'' = Some (- 200)"
    "entry afterLunch ''user1'' ''user2'' = Some 200"
    by (simp_all add: afterLunch_def hostel_eq bal_def entry_def map_at_def)
  from settlePayment_sign_convention [OF m, of 200]
  obtain g' where g':
    "settlePayment afterLunch ''user2'' ''user3'' 200 =
       (Paid (getUserName afterLunch ''user2'') (getUserName afterLunch ''user3'') 200, g')"
    "entry g' ''user2'' ''user3'' = Some (bal afterLunch ''user2'' ''user3'' + 200)"
    "entry g' ''user3'' ''user2'' = Some (bal afterLunch ''user3'' ''user2'' - 200)"
    "\<forall>a b. (a, b) \<noteq> (''user2'', ''user3'') \<and> (a, b) \<noteq> (''user3'', ''user2'') \<longrightarrow>
       entry g' a b = entry afterLunch a b"
    by auto
  from g'(4) have "entry g' ''user2'' ''user1'' = entry afterLunch ''user2'' ''user1''"
    "entry g' ''user1'' ''user2'' = entry afterLunch ''user1'' ''user2''"
    by simp_all
  moreover have s: "entry afterLunch ''user2'' ''user2'' = None" "bal afterLunch ''user2'' ''user2'' = 0"
    by (simp_all add: afterLunch_def hostel_eq bal_def entry_def map_at_def)
  moreover from settlePayment_sign_convention [OF m(1) m(1), of 50]
  have "entry (snd (settlePayment afterLunch ''user2'' ''user2'' 50)) ''user2'' ''user2''
          = Some (bal afterLunch ''user2'' ''user2'' + 50 - 50)"
    by auto
  ultimately show ?thesis using g' m by (simp add: n b)
qed

text \<open>
  A settlement of a negative amount between two members of the group of \<open>main\<close> is
  carried out and changes both balances.
\<close>

theorem settlePayment_negative_counterexample:
  "(- 5 :: double) \<le> 0 \<and>
   settlePayment hostel ''user2'' ''user3'' (- 5) =
     (Paid ''Rohit'' ''Manish'' (- 5),
      hostel\<lparr>balances :=
        [(''user1'', []), (''user2'', [(''user3'', - 5)]), (''user3'', [(''user2'', 5)]),
         (''user4'', [])]\<rparr>) \<and>
   Group.balances hostel = [(''user1'', []), (''user2'', []), (''user3'', []), (''user4'', [])]"
  by (simp add: settlePayment_def hostel_eq isMember_def getUserName_def user_ids
      addTo_def subFrom_def map_at_def)

text \<open>
  C6, as the code has it. \<open>settlePayment\<close> does not look at the amount. Whatever the
  amount is, zero and negative amounts included, a settlement between two members is
  accepted and applied (for distinct members, \<open>bal[from][to]\<close> grows and \<open>bal[to][from]\<close>
  shrinks by the amount); it is rejected, with the group unchanged, exactly when one of
  the two is not a member.
\<close>

theorem settlePayment_amount_unchecked:
  "(isMember g f \<and> isMember g t \<longrightarrow>
      fst (settlePayment g f t x) = Paid (getUserName g f) (getUserName g t) x \<and>
      (f \<noteq> t \<longrightarrow>
         bal (snd (settlePayment g f t x)) f t = bal g f t + x \<and>
         bal (snd (settlePayment g f t x)) t f = bal g t f - x)) \<and>
   (\<not> (isMember g f \<and> isMember g t) \<longrightarrow> settlePayment g f t x = (InvalidUsers, g))"
  by (auto simp: settlePayment_accepted bal_subFrom bal_addTo) (auto simp: settlePayment_def)

theorem settlePayment_amount_unchecked_witness:
  "isMember afterLunch ''user2'' \<and> isMember afterLunch ''user1'' \<and>
   fst (settlePayment afterLunch ''user2'' ''user1'' 0) = Paid ''Rohit'' ''Aditya'' 0 \<and>
   bal (snd (settlePayment afterLunch ''user2'' ''user1'' 0)) ''user2'' ''user1'' = - 200 \<and>
   bal (snd (settlePayment afterLunch ''user2'' ''user1'' 0)) ''user1'' ''user2'' = 200 \<and>
   \<not> isMember afterLunch ''uX'' \<and>
   settlePayment afterLunch ''uX'' ''user1'' 0 = (InvalidUsers, afterLunch)"
proof -
  have m: "isMember afterLunch ''user2''" "isMember afterLunch ''user1''"
    "\<not> isMember afterLunch ''uX''"
    by (simp_all add: afterLunch_def hostel_eq isMember_def)
  have n: "getUserName afterLunch ''user2'' = ''Rohit''" "getUserName afterLunch ''user1'' = ''Aditya''"
    by (simp_all add: afterLunch_def hostel_eq getUserName_def user_ids)
  have b: "bal afterLunch ''user2'' ''user1'' = - 200" "bal afterLunch ''user1'' ''user2'' = 200"
    by (simp_all add: afterLunch_def hostel_eq bal_def map_at_def)
  from settlePayment_amount_unchecked [of afterLunch "''user2''" "''user1''" 0]
    settlePayment_amount_unchecked [of afterLunch "''uX''" "''user1''" 0]
  show ?thesis by (simp add: m n b)
qed

subsection \<open>The listing of balances\<close>

lemma showRow_filter:
  "showRow g row =
     map (\<lambda>(otherId, balance).
            if balance > 0 then OwesRs (getUserName g otherId) balance
            else OwesTo (getUserName g otherId) \<bar>balance\<bar>)
         (filter (\<lambda>(otherId, balance). balance \<noteq> 0) row)"
  by (induction row) auto

lemma showRows_concat:
  "showRows g bals =
     concat (map (\<lambda>(uid, userBalances).
                    MemberLine (getUserName g uid)
                      # (if userBalances = [] then [NoBalances] else [])
                      @ showRow g userBalances) bals)"
  by (induction bals) auto

text \<open>
  A share of 0.005, below the tolerance 0.01 of the specification, is stored by
  \<open>addExpense\<close> and listed by \<open>showBalances\<close> on both sides.
\<close>

theorem showBalances_small_entry_counterexample:
  "\<bar>1 / 200 :: double\<bar> < 0.01 \<and>
   addExpense hostel ''Gum'' (1 / 200) ''user1'' [''user2''] EQUAL [] =
     Inr (ExpenseAdded ''Gum'' (1 / 200) ''Aditya'',
          hostel\<lparr>balances :=
            [(''user1'', [(''user2'', 1 / 200)]), (''user2'', [(''user1'', - (1 / 200))]),
             (''user3'', []), (''user4'', [])]\<rparr>) \<and>
   showBalances
     (hostel\<lparr>balances :=
        [(''user1'', [(''user2'', 1 / 200)]), (''user2'', [(''user1'', - (1 / 200))]),
         (''user3'', []), (''user4'', [])]\<rparr>) =
     [GroupBalancesFor ''Hostel Expenses'',
      MemberLine ''Aditya'', OwesRs ''Rohit'' (1 / 200),
      MemberLine ''Rohit'', OwesTo ''Aditya'' (1 / 200),
      MemberLine ''Manish'', NoBalances,
      MemberLine ''Saurav'', NoBalances]"
  by (simp add: addExpense_def makeSplits_def hostel_eq isMember_def showBalances_def
      getUserName_def user_ids addTo_def subFrom_def map_at_def)

text \<open>
  C9, as the code has it. \<open>showBalances\<close> compares each stored balance with zero and
  with nothing else: after the heading, it lists for every row of the matrix, in key
  order, the member, "No balances" for an empty row, and one line for every stored entry
  that is not zero, positive ones as "owes Rs" and negative ones as "Owes" with the
  absolute value. So every entry of absolute value 0.01 or more is listed, and so is
  every nonzero entry below 0.01; the entries omitted are those equal to zero.
\<close>

theorem showBalances_lists_nonzero_entries:
  "showBalances g =
     GroupBalancesFor (Group.name g) #
     concat (map (\<lambda>(uid, userBalances).
                    MemberLine (getUserName g uid)
                      # (if userBalances = [] then [NoBalances] else [])
                      @ map (\<lambda>(otherId, balance).
                               if balance > 0 then OwesRs (getUserName g otherId) balance
                               else OwesTo (getUserName g otherId) \<bar>balance\<bar>)
                            (filter (\<lambda>(otherId, balance). balance \<noteq> 0) userBalances))
                 (Group.balances g))"
  by (simp add: showBalances_def showRows_concat showRow_filter)

theorem showBalances_lists_nonzero_entries_witness:
  "showBalances
     (hostel\<lparr>balances :=
        [(''user1'', [(''user2'', 0), (''user3'', 1 / 1000)]),
         (''user2'', [(''user1'', 0)]),
         (''user3'', [(''user1'', - (1 / 1000))]),
         (''user4'', [])]\<rparr>) =
     [GroupBalancesFor ''Hostel Expenses'',
      MemberLine ''Aditya'', OwesRs ''Manish'' (1 / 1000),
      MemberLine ''Rohit'',
      MemberLine ''Manish'', OwesTo ''Aditya'' (1 / 1000),
      MemberLine ''Saurav'', NoBalances]"
  unfolding showBalances_lists_nonzero_entries
  by (simp add: hostel_eq getUserName_def user_ids)

subsection \<open>Adding a member\<close>




subsection \<open>Equal shares\<close>

lemma equal_shares_sum:
  "sum_list (map amount (filter (\<lambda>s. Split.userId s = q)
       (map (\<lambda>uid. \<lparr>Split.userId = uid, amount = c\<rparr>) users))) = real (count_list users q) * c"
  by (induction users) (auto simp: algebra_simps)

lemma addExpense_EQUAL_accepted:
  "isMember g p \<Longrightarrow> allMembersExist g users \<Longrightarrow>
   addExpense g desc T p users EQUAL vals =
     Inr (ExpenseAdded desc T (getUserName g p),
          g\<lparr>balances :=
              applySplits p
                (map (\<lambda>uid. \<lparr>Split.userId = uid, amount = T / real (length users)\<rparr>) users)
                (Group.balances g)\<rparr>)"
  by (simp add: addExpense_def makeSplits_def)

text \<open>
  A user listed twice is charged twice: of a total of 100 split between user2 and
  user2, each share is 50, and user2 owes the payer 100.
\<close>

theorem EQUAL_repeated_user_counterexample:
  "isMember hostel ''user1'' \<and> allMembersExist hostel [''user2'', ''user2''] \<and>
   (100 :: double) / real (length [''user2'', ''user2'']) = 50 \<and>
   bal hostel ''user1'' ''user2'' = 0 \<and>
   addExpense hostel ''Taxi'' 100 ''user1'' [''user2'', ''user2''] EQUAL [] =
     Inr (ExpenseAdded ''Taxi'' 100 ''Aditya'',
          hostel\<lparr>balances :=
            [(''user1'', [(''user2'', 100)]), (''user2'', [(''user1'', - 100)]),
             (''user3'', []), (''user4'', [])]\<rparr>) \<and>
   bal (hostel\<lparr>balances :=
            [(''user1'', [(''user2'', 100)]), (''user2'', [(''user1'', - 100)]),
             (''user3'', []), (''user4'', [])]\<rparr>) ''user1'' ''user2'' = 100"
  by (simp add: addExpense_def makeSplits_def hostel_eq isMember_def bal_def
      getUserName_def user_ids addTo_def subFrom_def map_at_def)

text \<open>
  C7, as the code has it. An \<open>EQUAL\<close> expense of total \<open>T\<close> paid by a member \<open>p\<close> for
  \<open>n\<close> listed members is accepted, and for every user \<open>q\<close> other than the payer
  \<open>bal[p][q]\<close> grows and \<open>bal[q][p]\<close> shrinks by \<open>T/n\<close> once for each occurrence of \<open>q\<close>
  in the list: by \<open>T/n\<close> for a user listed once, by nothing for a user not listed. The
  payer's own share changes nothing, \<open>bal[p][p]\<close> and the balances between other users
  stay as they were. The witness is the lunch of \<open>main\<close>: 800 paid by user1 for the
  four members leaves user1 with 200 from each of the others.
\<close>

theorem addExpense_EQUAL_shares:
  assumes "isMember g p" and "allMembersExist g users"
  shows "\<exists>g'. addExpense g desc T p users EQUAL vals = Inr (ExpenseAdded desc T (getUserName g p), g') \<and>
           (\<forall>q. q \<noteq> p \<longrightarrow>
              bal g' p q = bal g p q + real (count_list users q) * (T / real (length users)) \<and>
              bal g' q p = bal g q p - real (count_list users q) * (T / real (length users))) \<and>
           bal g' p p = bal g p p \<and>
           (\<forall>a b. a \<noteq> p \<and> b \<noteq> p \<longrightarrow> bal g' a b = bal g a b)"
  using assms
  by (simp add: addExpense_EQUAL_accepted bal_applySplits equal_shares_sum)

theorem addExpense_EQUAL_shares_witness:
  "isMember hostel ''user1'' \<and>
   allMembersExist hostel [''user1'', ''user2'', ''user3'', ''user4''] \<and>
   addExpense hostel ''Lunch'' 800 ''user1'' [''user1'', ''user2'', ''user3'', ''user4''] EQUAL []
     = Inr (ExpenseAdded ''Lunch'' 800 ''Aditya'', afterLunch) \<and>
   bal afterLunch ''user1'' ''user2'' = 200 \<and> bal afterLunch ''user1'' ''user3'' = 200 \<and>
   bal afterLunch ''user1'' ''user4'' = 200 \<and>
   bal afterLunch ''user2'' ''user1'' = - 200 \<and> bal afterLunch ''user3'' ''user1'' = - 200 \<and>
   bal afterLunch ''user4'' ''user1'' = - 200 \<and>
   bal afterLunch ''user1'' ''user1'' = 0 \<and> bal afterLunch ''user2'' ''user3'' = 0"
proof -
  have m: "isMember hostel ''user1''"
    "allMembersExist hostel [''user1'', ''user2'', ''user3'', ''user4'']"
    by (simp_all add: hostel_members)
  have z: "bal hostel a b = 0" for a b
    by (simp add: hostel_eq bal_def map_at_def)
  from addExpense_EQUAL_shares [OF m, of "''Lunch''" 800 "[]"]
  obtain g' where g':
    "addExpense hostel ''Lunch'' 800 ''user1'' [''user1'', ''user2'', ''user3'', ''user4''] EQUAL []
       = Inr (ExpenseAdded ''Lunch'' 800 (getUserName hostel ''user1''), g')"
    "\<forall>q. q \<noteq> ''user1'' \<longrightarrow>
       bal g' ''user1'' q = bal hostel ''user1'' q
         + real (count_list [''user1'', ''user2'', ''user3'', ''user4''] q)
           * (800 / real (length [''user1'', ''user2'', ''user3'', ''user4''])) \<and>
       bal g' q ''user1'' = bal hostel q ''user1''
         - real (count_list [''user1'', ''user2'', ''user3'', ''user4''] q)
           * (800 / real (length [''user1'', ''user2'', ''user3'', ''user4'']))"
    "bal g' ''user1'' ''user1'' = bal hostel ''user1'' ''user1''"
    "\<forall>a b. a \<noteq> ''user1'' \<and> b \<noteq> ''user1'' \<longrightarrow> bal g' a b = bal hostel a b"
    by blast
  from g'(1) have g'_eq: "g' = afterLunch"
    by (simp add: lunch_eq)
  from g'(2) have
    "bal g' ''user1'' ''user2'' = 200 \<and> bal g' ''user2'' ''user1'' = - 200"
    "bal g' ''user1'' ''user3'' = 200 \<and> bal g' ''user3'' ''user1'' = - 200"
    "bal g' ''user1'' ''user4'' = 200 \<and> bal g' ''user4'' ''user1'' = - 200"
    by (simp_all add: z)
  moreover from g'(4) have "bal g' ''user2'' ''user3'' = 0"
    by (simp add: z)
  ultimately show ?thesis using m g'(3) by (simp add: g'_eq lunch_eq z)
qed

subsection \<open>Antisymmetry\<close>

text \<open>
  Expenses and settlements change \<open>bal[a][b]\<close> and \<open>bal[b][a]\<close> by opposite amounts,
  and a new member starts with an empty row, so these steps keep
  \<open>bal[a][b] + bal[b][a] = 0\<close> for distinct \<open>a\<close> and \<open>b\<close>.
\<close>

lemma settlePayment_antisymmetric:
  assumes "\<forall>a b. a \<noteq> b \<longrightarrow> bal g a b + bal g b a = 0"
  shows "\<forall>a b. a \<noteq> b \<longrightarrow>
           bal (snd (settlePayment g f t x)) a b + bal (snd (settlePayment g f t x)) b a = 0"
  using assms by (auto simp: settlePayment_def bal_subFrom bal_addTo)

lemma applySplits_antisymmetric:
  assumes "\<forall>a b. a \<noteq> b \<longrightarrow> bal g a b + bal g b a = 0"
  shows "\<forall>a b. a \<noteq> b \<longrightarrow>
           bal (g\<lparr>balances := applySplits p splits (Group.balances g)\<rparr>) a b
             + bal (g\<lparr>balances := applySplits p splits (Group.balances g)\<rparr>) b a = 0"
  using assms by (auto simp: bal_applySplits)

lemma addExpense_antisymmetric:
  assumes "\<forall>a b. a \<noteq> b \<longrightarrow> bal g a b + bal g b a = 0"
    and "addExpense g desc amt p users type vals = Inr (msg, g')"
  shows "\<forall>a b. a \<noteq> b \<longrightarrow> bal g' a b + bal g' b a = 0"
proof (cases "\<not> isMember g p \<or> \<not> allMembersExist g users")
  case True
  with assms show ?thesis by (simp add: addExpense_def)
next
  case False
  with assms(2) obtain splits where
    "g' = g\<lparr>balances := applySplits p splits (Group.balances g)\<rparr>"
    by (auto simp: addExpense_def split: sum.splits)
  with applySplits_antisymmetric [OF assms(1)] show ?thesis by simp
qed

lemma addMember_antisymmetric:
  assumes "\<forall>a b. a \<noteq> b \<longrightarrow> bal g a b + bal g b a = 0"
    and "\<not> isMember g (User.userId user)"
  shows "\<forall>a b. a \<noteq> b \<longrightarrow> bal (snd (addMember g user)) a b + bal (snd (addMember g user)) b a = 0"
  using assms by (simp add: bal_new_member)

text \<open>
  Hence the sums are zero in every group reached without adding a member twice, the
  group of \<open>main\<close> after its first expense among them.
\<close>

lemma addedOnce_antisymmetric:
  assumes "addedOnce g"
  shows "\<forall>a b. a \<noteq> b \<longrightarrow> bal g a b + bal g b a = 0"
  using assms
proof (induction rule: addedOnce.induct)
  case (created nextGroupId nm)
  show ?case by (simp add: Group_new_def bal_def map_at_def)
next
  case (member g user)
  then show ?case by (intro addMember_antisymmetric)
next
  case (expense g desc amt paidBy users type vals msg g')
  then show ?case by (intro addExpense_antisymmetric [of g desc amt paidBy users type vals msg g'])
next
  case (payment g fromUserId toUserId amt)
  then show ?case by (intro settlePayment_antisymmetric)
qed

lemma addedOnce_afterLunch: "addedOnce afterLunch"
proof -
  have "addedOnce hostel"
    unfolding hostel_def
    by (intro addedOnce.member addedOnce.created)
       (simp_all add: addMember_def Group_new_def isMember_def user_ids)
  then show ?thesis
    using lunch_eq by (rule addedOnce.expense)
qed

text \<open>
  C1. The sums are not zero in every group the three operations reach. \<open>addMember\<close>
  does not look whether the user is a member already and assigns the empty row in every
  case. After the lunch of \<open>main\<close> the balances of user1 and user2 cancel; adding user1
  to the group once more empties the row of user1 and leaves the row of user2, so that
  \<open>bal[user1][user2] + bal[user2][user1]\<close> is \<open>- 200\<close>, beyond the tolerance 0.01.
\<close>

theorem re_added_member_breaks_antisymmetry:
  "addExpense hostel ''Lunch'' 800 ''user1'' [''user1'', ''user2'', ''user3'', ''user4''] EQUAL []
     = Inr (ExpenseAdded ''Lunch'' 800 ''Aditya'', afterLunch) \<and>
   bal afterLunch ''user1'' ''user2'' + bal afterLunch ''user2'' ''user1'' = 0 \<and>
   isMember (snd (addMember afterLunch user1)) ''user1'' \<and>
   isMember (snd (addMember afterLunch user1)) ''user2'' \<and>
   bal (snd (addMember afterLunch user1)) ''user1'' ''user2'' = 0 \<and>
   bal (snd (addMember afterLunch user1)) ''user2'' ''user1'' = - 200 \<and>
   \<bar>bal (snd (addMember afterLunch user1)) ''user1'' ''user2''
      + bal (snd (addMember afterLunch user1)) ''user2'' ''user1''\<bar> > 0.01"
  by (simp add: lunch_eq)
     (simp add: addMember_def afterLunch_def hostel_eq isMember_def bal_def user_ids map_at_def)

theorem re_added_member_breaks_antisymmetry_witness:
  "bal (snd (addMember afterLunch user1)) ''user1'' ''user2''
     + bal (snd (addMember afterLunch user1)) ''user2'' ''user1'' = - 200"
  using re_added_member_breaks_antisymmetry by simp

end
